theory Spec2Isabelle
  imports Complex_Main "HOL-Library.Multiset"
begin

section \<open>Data model of the energy dashboard (script.js)\<close>

text \<open>
  The script keeps one dataset (\<open>window.globalData\<close>) and one selected year
  (\<open>window.currentYear\<close>).  A year is used only as a property key of
  \<open>data.regional\<close>, a source only as a property key of a region object, so both are
  modelled by their key strings.

  Numbers: the generation values are finite numbers read from JSON.  They are modelled as
  exact rationals, and so are the sums that make up the totals; the rounding of IEEE
  doubles and the negative zero are not part of this model.  Where the script multiplies
  and divides (the percentage labels and the heatmap intensity), the non-finite results
  are kept (\<open>jsnum\<close> below): the script divides without testing the divisor, and a
  product, a sum or a quotient beyond the range of doubles is an infinity.
\<close>

type_synonym year = string
type_synonym source = string

text \<open>
  A region object \<open>{region: name, <source>: value, ...}\<close>.  \<open>gen r s\<close> is \<open>r[s]\<close>:
  \<open>None\<close> when the key is absent (\<open>undefined\<close>) or \<open>null\<close>.
\<close>

record region_record =
  region :: string
  gen :: "source \<rightharpoonup> rat"

text \<open>The fields of the dataset that the year-dependent code reads.\<close>

record dataset =
  sources :: "source list"
  regional :: "year \<rightharpoonup> region_record list"
  latest_year :: year

datatype error = TypeError

text \<open>A number that an arithmetic operation can produce.\<close>

datatype jsnum = Num rat | NaN | PInf | NInf

subsection \<open>Numeric gaps: \<open>r[s] || 0\<close>\<close>

text \<open>\<open>x || 0\<close> for \<open>x\<close> a number, \<open>undefined\<close> or \<open>null\<close>: the falsy values give 0.\<close>

definition orZero :: "rat option \<Rightarrow> rat" where
  "orZero v = (case v of None \<Rightarrow> 0 | Some x \<Rightarrow> (if x = 0 then 0 else x))"

subsection \<open>Totals\<close>

text \<open>\<open>data.sources.reduce((acc, s) => acc + (r[s]||0), 0)\<close> (lines 70, 185, 186, 366).\<close>

definition regionTotal :: "source list \<Rightarrow> region_record \<Rightarrow> rat" where
  "regionTotal srcs r = foldl (\<lambda>acc s. acc + orZero (gen r s)) 0 srcs"

text \<open>
  Every year-dependent computation reads \<open>data.regional[year]\<close> and calls an array method
  on it (or spreads it).  A year without an entry gives \<open>undefined\<close>, and the call raises
  a TypeError; nothing in the script tests the year first.
\<close>

definition onRegions :: "dataset \<Rightarrow> year \<Rightarrow> (region_record list \<Rightarrow> 'a) \<Rightarrow> error + 'a" where
  "onRegions data y f = (case regional data y of None \<Rightarrow> Inl TypeError | Some rs \<Rightarrow> Inr (f rs))"

text \<open>
  Lines 68-71 of \<open>filterByYear\<close>:
  \<open>regionalData.reduce((acc, r) => acc + data.sources.reduce((sAcc, s) => sAcc + (r[s]||0), 0), 0)\<close>.
\<close>

definition totalForYear :: "dataset \<Rightarrow> year \<Rightarrow> error + rat" where
  "totalForYear data y =
     onRegions data y
       (\<lambda>rs. foldl (\<lambda>acc r. acc + foldl (\<lambda>sAcc s. sAcc + orZero (gen r s)) 0 (sources data)) 0 rs)"

subsection \<open>Sorting with a comparator\<close>

text \<open>
  \<open>Array.prototype.sort(cmp)\<close> is stable, and with a consistent comparator its result is
  the one arrangement that is ordered by \<open>cmp\<close> and keeps equal elements in their input
  order.  Insertion from the right computes that arrangement: an element is put in front
  of the first element it does not have to follow.
\<close>

fun sort_insert :: "('a \<Rightarrow> 'a \<Rightarrow> rat) \<Rightarrow> 'a \<Rightarrow> 'a list \<Rightarrow> 'a list" where
  "sort_insert cmp x [] = [x]"
| "sort_insert cmp x (y # ys) = (if cmp x y \<le> 0 then x # y # ys else y # sort_insert cmp x ys)"

fun js_sort :: "('a \<Rightarrow> 'a \<Rightarrow> rat) \<Rightarrow> 'a list \<Rightarrow> 'a list" where
  "js_sort cmp [] = []"
| "js_sort cmp (x # xs) = sort_insert cmp x (js_sort cmp xs)"

subsection \<open>Top regions of the regional chart\<close>

text \<open>
  Lines 184-188: \<open>[...currentRegionalData].sort((a, b) => sumB - sumA).slice(0, 5)\<close>, with
  \<open>sumA\<close>, \<open>sumB\<close> the region totals.  \<open>topRegions n\<close> is the expression with \<open>n\<close> for
  the literal 5, which \<open>renderRegionalChart\<close> supplies.
\<close>

definition sortedRegions :: "dataset \<Rightarrow> region_record list \<Rightarrow> region_record list" where
  "sortedRegions data rs =
     js_sort (\<lambda>a b. regionTotal (sources data) b - regionTotal (sources data) a) rs"

definition topRegions :: "nat \<Rightarrow> dataset \<Rightarrow> year \<Rightarrow> error + region_record list" where
  "topRegions n data y = onRegions data y (\<lambda>rs. take n (sortedRegions data rs))"

text \<open>
  The chart data of \<open>renderRegionalChart\<close>: the labels and, for each source, the raw
  values \<open>r[source]\<close> of the chosen regions.
\<close>

type_synonym regional_chart = "string list \<times> (source \<times> rat option list) list"

definition renderRegionalChart :: "dataset \<Rightarrow> year \<Rightarrow> error + regional_chart" where
  "renderRegionalChart data y =
     (case topRegions 5 data y of
        Inl e \<Rightarrow> Inl e
      | Inr chosen \<Rightarrow>
          Inr (map region chosen, map (\<lambda>s. (s, map (\<lambda>r. gen r s) chosen)) (sources data)))"

subsection \<open>Energy mix and regional share\<close>

text \<open>
  Lines 314-317: \<open>data.sources.map(source => currentRegionalData.reduce(...))\<close>.  The
  \<open>reduce\<close> is called inside the callback, so with an empty source list an unknown year
  raises nothing.
\<close>

definition sourceTotalsOf :: "dataset \<Rightarrow> region_record list \<Rightarrow> rat list" where
  "sourceTotalsOf data rs =
     map (\<lambda>s. foldl (\<lambda>acc r. acc + orZero (gen r s)) 0 rs) (sources data)"

definition sourceMixTotals :: "dataset \<Rightarrow> year \<Rightarrow> error + rat list" where
  "sourceMixTotals data y =
     (case regional data y of
        None \<Rightarrow> (if sources data = [] then Inr [] else Inl TypeError)
      | Some rs \<Rightarrow> Inr (sourceTotalsOf data rs))"

type_synonym mix_chart = "source list \<times> rat list"

definition renderMixChart :: "dataset \<Rightarrow> year \<Rightarrow> error + mix_chart" where
  "renderMixChart data y =
     (case sourceMixTotals data y of Inl e \<Rightarrow> Inl e | Inr ts \<Rightarrow> Inr (sources data, ts))"

text \<open>
  Lines 363-368: \<open>currentRegionalData.map(r => ({region, total})).sort((a,b) => b.total - a.total)\<close>.
\<close>

definition regionTotalsOf :: "dataset \<Rightarrow> region_record list \<Rightarrow> (string \<times> rat) list" where
  "regionTotalsOf data rs =
     js_sort (\<lambda>a b. snd b - snd a) (map (\<lambda>r. (region r, regionTotal (sources data) r)) rs)"

definition regionShareTotals :: "dataset \<Rightarrow> year \<Rightarrow> error + (string \<times> rat) list" where
  "regionShareTotals data y = onRegions data y (regionTotalsOf data)"

type_synonym share_chart = "string list \<times> rat list"

definition renderRegionalShareChart :: "dataset \<Rightarrow> year \<Rightarrow> error + share_chart" where
  "renderRegionalShareChart data y =
     (case regionShareTotals data y of
        Inl e \<Rightarrow> Inl e
      | Inr ts \<Rightarrow> Inr (map fst ts, map snd ts))"

subsection \<open>Ranking by one source\<close>

text \<open>
  The later (overriding) \<open>updateRankingTable\<close>, lines 436-439:
  \<open>currentRegionalData.map(r => ({region, val: r[source] || 0})).sort((a,b) => b.val - a.val)\<close>.
  The source is whatever the select element holds; it is not compared with
  \<open>data.sources\<close>.
\<close>

definition rankingOf :: "source \<Rightarrow> region_record list \<Rightarrow> (string \<times> rat) list" where
  "rankingOf src rs =
     js_sort (\<lambda>a b. snd b - snd a) (map (\<lambda>r. (region r, orZero (gen r src))) rs)"

definition rankBySource :: "dataset \<Rightarrow> year \<Rightarrow> source \<Rightarrow> error + (string \<times> rat) list" where
  "rankBySource data y src = onRegions data y (rankingOf src)"

subsection \<open>Division, \<open>toFixed(1)\<close> and the percentage labels\<close>

text \<open>
  Overflow.  The largest finite double is \<open>2^1024 - 2^971\<close>; an operation whose exact
  result has a magnitude of \<open>2^1024 - 2^970\<close> or more gives an infinity.  Below that
  bound the operation gives the double nearest to the exact result, which this model
  does not tell apart from the exact result.
\<close>

definition overflowAt :: rat where
  "overflowAt = 2 ^ 1024 - 2 ^ 970"

definition js_fin :: "rat \<Rightarrow> jsnum" where
  "js_fin x = (if overflowAt \<le> x then PInf else if x \<le> - overflowAt then NInf else Num x)"

text \<open>\<open>a / b\<close> on finite numbers; the divisor of the script is never a negative zero.\<close>

definition js_div :: "rat \<Rightarrow> rat \<Rightarrow> jsnum" where
  "js_div a b =
     (if b \<noteq> 0 then js_fin (a / b)
      else if a = 0 then NaN
      else if 0 < a then PInf
      else NInf)"

text \<open>\<open>x / y\<close> in general: an infinity divided by a finite number keeps or flips its sign,
  a finite number divided by an infinity is 0, anything else is NaN.\<close>

fun js_quot :: "jsnum \<Rightarrow> jsnum \<Rightarrow> jsnum" where
  "js_quot (Num a) (Num b) = js_div a b"
| "js_quot (Num a) PInf = Num 0"
| "js_quot (Num a) NInf = Num 0"
| "js_quot PInf (Num b) = (if b < 0 then NInf else PInf)"
| "js_quot NInf (Num b) = (if b < 0 then PInf else NInf)"
| "js_quot x y = NaN"

text \<open>\<open>x * c\<close>, \<open>c + x\<close> and \<open>x + d\<close> for finite numbers \<open>c\<close> and \<open>d\<close>.\<close>

definition js_times :: "jsnum \<Rightarrow> rat \<Rightarrow> jsnum" where
  "js_times x c =
     (case x of
        Num a \<Rightarrow> js_fin (a * c)
      | NaN \<Rightarrow> NaN
      | PInf \<Rightarrow> (if 0 < c then PInf else if c < 0 then NInf else NaN)
      | NInf \<Rightarrow> (if 0 < c then NInf else if c < 0 then PInf else NaN))"

definition js_plus :: "rat \<Rightarrow> jsnum \<Rightarrow> jsnum" where
  "js_plus c x = (case x of Num a \<Rightarrow> js_fin (c + a) | NaN \<Rightarrow> NaN | PInf \<Rightarrow> PInf | NInf \<Rightarrow> NInf)"

definition js_add :: "jsnum \<Rightarrow> rat \<Rightarrow> jsnum" where
  "js_add x d = (case x of Num a \<Rightarrow> js_fin (a + d) | NaN \<Rightarrow> NaN | PInf \<Rightarrow> PInf | NInf \<Rightarrow> NInf)"

text \<open>\<open>x > c\<close> for a finite constant \<open>c\<close>: false for NaN.\<close>

definition js_gt :: "jsnum \<Rightarrow> rat \<Rightarrow> bool" where
  "js_gt x c = (case x of Num a \<Rightarrow> c < a | NaN \<Rightarrow> False | PInf \<Rightarrow> True | NInf \<Rightarrow> False)"

text \<open>Decimal digits of a natural number.\<close>

definition digit :: "nat \<Rightarrow> char" where
  "digit d = ''0123456789'' ! d"

fun decimal :: "nat \<Rightarrow> string" where
  "decimal n = (if n < 10 then [digit n] else decimal (n div 10) @ [digit (n mod 10)])"

declare decimal.simps [simp del]

text \<open>
  \<open>x.toFixed(1)\<close>: the sign, then the integer \<open>n\<close> with \<open>n / 10\<close> nearest to \<open>|x|\<close>
  (the larger one of two), printed with one digit after the point; a non-finite number is
  printed by name.  (The exponent form of numbers from \<open>10^21\<close> on is not modelled.)
\<close>

definition tenths :: "rat \<Rightarrow> nat" where
  "tenths x = nat \<lfloor>\<bar>x\<bar> * 10 + 1 / 2\<rfloor>"

definition toFixed1 :: "jsnum \<Rightarrow> string" where
  "toFixed1 x =
     (case x of
        Num a \<Rightarrow>
          (if a < 0 then ''-'' else []) @ decimal (tenths a div 10) @ ''.'' @ [digit (tenths a mod 10)]
      | NaN \<Rightarrow> ''NaN''
      | PInf \<Rightarrow> ''Infinity''
      | NInf \<Rightarrow> ''-Infinity'')"

text \<open>
  The number that the string \<open>x.toFixed(1)\<close> converts back to, as the comparison
  \<open>percentage > 3\<close> on that string does.
\<close>

definition fixedValue :: "jsnum \<Rightarrow> jsnum" where
  "fixedValue x =
     (case x of
        Num a \<Rightarrow> Num ((if a < 0 then - 1 else 1) * of_nat (tenths a) / 10)
      | NaN \<Rightarrow> NaN
      | PInf \<Rightarrow> PInf
      | NInf \<Rightarrow> NInf)"

text \<open>
  The formatter of both pie charts (lines 337-347 and 391-401).  \<open>vis i\<close> is
  \<open>ctx.chart.getDataVisibility(i)\<close>.  The chart's data array holds finite numbers.  The
  loop \<open>sum += data\<close> adds its visible entries from the left, starting from 0; the sum
  can overflow.
\<close>

fun visibleSumFrom :: "(nat \<Rightarrow> bool) \<Rightarrow> nat \<Rightarrow> jsnum \<Rightarrow> rat list \<Rightarrow> jsnum" where
  "visibleSumFrom vis i acc [] = acc"
| "visibleSumFrom vis i acc (d # ds) =
     visibleSumFrom vis (Suc i) (if vis i then js_add acc d else acc) ds"

definition visibleSum :: "(nat \<Rightarrow> bool) \<Rightarrow> rat list \<Rightarrow> jsnum" where
  "visibleSum vis dataArr = visibleSumFrom vis 0 (Num 0) dataArr"

text \<open>\<open>value*100 / sum\<close>, before and after \<open>toFixed(1)\<close>; the product can overflow too.\<close>

definition shareQuotient :: "rat \<Rightarrow> rat list \<Rightarrow> (nat \<Rightarrow> bool) \<Rightarrow> jsnum" where
  "shareQuotient v dataArr vis = js_quot (js_fin (v * 100)) (visibleSum vis dataArr)"

definition percentage :: "rat \<Rightarrow> rat list \<Rightarrow> (nat \<Rightarrow> bool) \<Rightarrow> string" where
  "percentage v dataArr vis = toFixed1 (shareQuotient v dataArr vis)"

definition formatter :: "rat \<Rightarrow> rat list \<Rightarrow> (nat \<Rightarrow> bool) \<Rightarrow> string" where
  "formatter v dataArr vis =
     (if js_gt (fixedValue (shareQuotient v dataArr vis)) 3
      then percentage v dataArr vis @ ''%''
      else [])"

text \<open>
  The share of the entry at an index, as the chart library calls the formatter: with the
  entry's own value.  The string is \<open>percentage\<close>; this is its numeric value.
\<close>

definition visibleSharePercent :: "rat list \<Rightarrow> (nat \<Rightarrow> bool) \<Rightarrow> nat \<Rightarrow> jsnum" where
  "visibleSharePercent values vis i = fixedValue (shareQuotient (values ! i) values vis)"

subsection \<open>Heatmap\<close>

text \<open>
  The later (overriding) \<open>showHeatmap\<close>, lines 489-507.  The maximum starts at 0 and is
  replaced by \<open>r[s]\<close> whenever \<open>(r[s]||0) > maxVal\<close>; the test can only hold for a
  positive number, for which \<open>r[s]\<close> and \<open>r[s]||0\<close> agree.
\<close>

definition heatmapMax :: "dataset \<Rightarrow> region_record list \<Rightarrow> rat" where
  "heatmapMax data rs =
     foldl (\<lambda>maxVal r.
              foldl (\<lambda>m s. if m < orZero (gen r s) then orZero (gen r s) else m) maxVal (sources data))
       0 rs"

text \<open>\<open>0.1 + (val / maxVal) * 0.9\<close>.\<close>

definition heatmapIntensity :: "rat \<Rightarrow> rat \<Rightarrow> jsnum" where
  "heatmapIntensity val maxVal = js_plus (1 / 10) (js_times (js_div val maxVal) (9 / 10))"

datatype cell_text = Dash | Localized rat

datatype text_color = White | Black

text \<open>
  One cell: its text is \<open>val.toLocaleString()\<close> or \<open>'-'\<close>; a background intensity and a
  text colour are set only when \<open>val > 0\<close>.
\<close>

record heat_cell =
  cellText :: cell_text
  cellIntensity :: "jsnum option"
  cellColor :: "text_color option"

definition heatCell :: "rat \<Rightarrow> region_record \<Rightarrow> source \<Rightarrow> heat_cell" where
  "heatCell maxVal r s =
     (let val = orZero (gen r s)
      in if 0 < val
         then \<lparr> cellText = Localized val,
                cellIntensity = Some (heatmapIntensity val maxVal),
                cellColor = Some (if js_gt (heatmapIntensity val maxVal) (1 / 2) then White else Black) \<rparr>
         else \<lparr> cellText = Dash, cellIntensity = None, cellColor = None \<rparr>)"

type_synonym heat_table = "source list \<times> (string \<times> heat_cell list) list"

definition heatmapOf :: "dataset \<Rightarrow> region_record list \<Rightarrow> heat_table" where
  "heatmapOf data rs =
     (sources data,
      map (\<lambda>r. (region r, map (heatCell (heatmapMax data rs) r) (sources data))) rs)"

definition showHeatmap :: "dataset \<Rightarrow> year \<Rightarrow> error + heat_table" where
  "showHeatmap data y = onRegions data y (heatmapOf data)"

subsection \<open>Selection state and \<open>filterByYear\<close>\<close>

text \<open>
  The text shown for a year (line 60-65); the three Korean sentences and the fallback are
  named here.
\<close>

datatype feature = FuelCellShare | SolarGrowth | BioGrowth | Analysing

definition characteristics :: "year \<Rightarrow> feature" where
  "characteristics y =
     (if y = ''2021'' then FuelCellShare
      else if y = ''2022'' then SolarGrowth
      else if y = ''2023'' then BioGrowth
      else Analysing)"

datatype detail =
    NoDetail
  | RankingView source "(string \<times> rat) list"
  | HeatmapView heat_table

text \<open>
  The globals \<open>currentYear\<close>, \<open>globalData\<close> and \<open>charts\<close>, and the parts of the page the
  script reads or writes: the value of the source select, whether the heatmap button is
  active, the three statistics and the detail area.
\<close>

record state =
  currentYear :: year
  globalData :: "dataset option"
  sourceSelect :: source
  heatmapActive :: bool
  statYear :: year
  statFeature :: feature
  statTotal :: int
  regionalChart :: "regional_chart option"
  mixChart :: "mix_chart option"
  shareChart :: "share_chart option"
  detailView :: detail

text \<open>\<open>Math.round\<close>: the nearest integer, a half going up.\<close>

definition js_round :: "rat \<Rightarrow> int" where
  "js_round x = \<lfloor>x + 1 / 2\<rfloor>"

text \<open>
  \<open>filterByYear\<close> (lines 47-87).  The first statement stores the year; the statistics for
  the year and the feature text are written next; only then is \<open>data.regional[year]\<close>
  read.  An exception leaves everything written so far in place.  The result is the
  exception raised, if any, and the state reached.
\<close>

definition filterByYear :: "year \<Rightarrow> state \<Rightarrow> error option \<times> state" where
  "filterByYear y st =
     (let st1 = st\<lparr> currentYear := y, statYear := y, statFeature := characteristics y \<rparr>
      in case globalData st1 of
           None \<Rightarrow> (Some TypeError, st1)
         | Some data \<Rightarrow>
             (case totalForYear data y of
                Inl e \<Rightarrow> (Some e, st1)
              | Inr totalGen \<Rightarrow>
                  (let st2 = st1\<lparr> statTotal := js_round totalGen \<rparr>
                   in case renderRegionalChart data y of
                        Inl e \<Rightarrow> (Some e, st2)
                      | Inr rc \<Rightarrow>
                          (let st3 = st2\<lparr> regionalChart := Some rc \<rparr>
                           in case renderMixChart data y of
                                Inl e \<Rightarrow> (Some e, st3)
                              | Inr mc \<Rightarrow>
                                  (let st4 = st3\<lparr> mixChart := Some mc \<rparr>
                                   in case renderRegionalShareChart data y of
                                        Inl e \<Rightarrow> (Some e, st4)
                                      | Inr sc \<Rightarrow>
                                          (let st5 = st4\<lparr> shareChart := Some sc \<rparr>
                                           in if heatmapActive st5
                                              then (case showHeatmap data (currentYear st5) of
                                                      Inl e \<Rightarrow> (Some e, st5\<lparr> detailView := NoDetail \<rparr>)
                                                    | Inr h \<Rightarrow> (None, st5\<lparr> detailView := HeatmapView h \<rparr>))
                                              else (case rankBySource data (currentYear st5) (sourceSelect st5) of
                                                      Inl e \<Rightarrow>
                                                        (Some e, st5\<lparr> heatmapActive := False, detailView := NoDetail \<rparr>)
                                                    | Inr rk \<Rightarrow>
                                                        (None,
                                                         st5\<lparr> heatmapActive := False,
                                                              detailView := RankingView (sourceSelect st5) rk \<rparr>))))))))"

subsection \<open>The intensity scale as the specification words it\<close>

text \<open>
  The specification describes a function of the value, the maximum, a floor and a
  ceiling: 0 if \<open>value <= 0\<close>, otherwise \<open>floor + (value / maxValue) * (ceiling - floor)\<close>
  clamped to \<open>[0, ceiling]\<close>.  This definition follows those words; it is compared below
  with \<open>heatmapIntensity\<close> and \<open>heatCell\<close>, which follow the script.
\<close>

definition heatmapIntensitySpec :: "rat \<Rightarrow> rat \<Rightarrow> rat \<Rightarrow> rat \<Rightarrow> rat" where
  "heatmapIntensitySpec v maxValue lo hi =
     (if v \<le> 0 then 0 else min hi (max 0 (lo + (v / maxValue) * (hi - lo))))"

text \<open>
  The intensity of a cell as a number: where the script sets no colour, the
  specification's function returns 0.
\<close>

definition intensityValue :: "heat_cell \<Rightarrow> jsnum" where
  "intensityValue c = (case cellIntensity c of None \<Rightarrow> Num 0 | Some x \<Rightarrow> x)"

subsection \<open>A two-region dataset\<close>

text \<open>
  Year 2023 with the sources solar and wind, region A with solar 100 and wind 0, region B
  with solar 50 and wind 50; and a state of the page that has this dataset loaded and
  2023 selected.
\<close>

definition exA :: region_record where
  "exA = \<lparr> region = ''A'', gen = [''solar'' \<mapsto> 100, ''wind'' \<mapsto> 0] \<rparr>"

definition exB :: region_record where
  "exB = \<lparr> region = ''B'', gen = [''solar'' \<mapsto> 50, ''wind'' \<mapsto> 50] \<rparr>"

definition exData :: dataset where
  "exData =
     \<lparr> sources = [''solar'', ''wind''],
       regional = [''2023'' \<mapsto> [exA, exB]],
       latest_year = ''2023'' \<rparr>"

definition exState :: state where
  "exState =
     \<lparr> currentYear = ''2023'', globalData = Some exData, sourceSelect = ''solar'',
       heatmapActive = False, statYear = ''2023'', statFeature = BioGrowth, statTotal = 200,
       regionalChart = None, mixChart = None, shareChart = None, detailView = NoDetail \<rparr>"

text \<open>A year in which no region generated anything.\<close>

definition exIdle :: dataset where
  "exIdle =
     \<lparr> sources = [''solar'', ''wind''],
       regional = [''2020'' \<mapsto> [\<lparr> region = ''A'', gen = [''solar'' \<mapsto> 0] \<rparr>,
                                  \<lparr> region = ''B'', gen = Map.empty \<rparr>]],
       latest_year = ''2020'' \<rparr>"


section \<open>Properties\<close>

lemma foldl_add_sum_list:
  "foldl (\<lambda>acc x. acc + f x) a xs = (a::rat) + sum_list (map f xs)"
  by (induction xs arbitrary: a) (simp_all add: add.assoc)

lemma regionTotal_sum:
  "regionTotal srcs r = (\<Sum>s\<leftarrow>srcs. orZero (gen r s))"
  by (simp add: regionTotal_def foldl_add_sum_list)

subsection \<open>Total of a year\<close>

text \<open>
  Claim C7.  For a year that has an entry in \<open>data.regional\<close>, the total computed by
  \<open>filterByYear\<close> is the sum, over the region records of that year, of the region total;
  and a region total is the sum over the dataset's sources of the record's values, an
  absent key counting as 0.
\<close>

theorem totalForYear_sum_regionTotal:
  assumes "regional data y = Some rs"
  shows "totalForYear data y = Inr (\<Sum>r\<leftarrow>rs. regionTotal (sources data) r)
       \<and> (\<forall>r. regionTotal (sources data) r
               = (\<Sum>s\<leftarrow>sources data. case gen r s of None \<Rightarrow> 0 | Some v \<Rightarrow> v))"
proof -
  have inner: "foldl (\<lambda>sAcc s. sAcc + orZero (gen r s)) 0 (sources data) = regionTotal (sources data) r" for r
    by (simp add: regionTotal_def)
  have "totalForYear data y = Inr (foldl (\<lambda>acc r. acc + regionTotal (sources data) r) 0 rs)"
    using assms by (simp add: totalForYear_def onRegions_def inner)
  moreover have "orZero v = (case v of None \<Rightarrow> 0 | Some x \<Rightarrow> x)" for v
    by (simp add: orZero_def split: option.splits)
  ultimately show ?thesis
    by (simp add: foldl_add_sum_list regionTotal_sum)
qed

theorem totalForYear_sum_regionTotal_witness:
  "regional exData ''2023'' = Some [exA, exB]
   \<and> totalForYear exData ''2023''
       = Inr (regionTotal (sources exData) exA + regionTotal (sources exData) exB)"
  using totalForYear_sum_regionTotal [of exData "''2023''" "[exA, exB]"]
  by (simp add: exData_def)

subsection \<open>Sorting by a descending key\<close>

text \<open>
  Every comparator of the script has the form \<open>(a, b) => key(b) - key(a)\<close>.  For such a
  comparator the sort is the stable sort by the negated key.
\<close>

lemma sort_insert_desc:
  "sort_insert (\<lambda>a b. f b - f a) x ys = insort_key (\<lambda>z. - f z) x ys"
  by (induction ys) simp_all

lemma js_sort_desc:
  "js_sort (\<lambda>a b. f b - f a) xs = sort_key (\<lambda>z. - f z) xs"
  by (induction xs) (simp_all add: sort_insert_desc)

lemma js_sort_desc_mset: "mset (js_sort (\<lambda>a b. f b - f a) xs) = mset xs"
  by (simp add: js_sort_desc)

lemma js_sort_desc_length: "length (js_sort (\<lambda>a b. f b - f a) xs) = length xs"
  by (simp add: js_sort_desc)

lemma js_sort_desc_sorted:
  "sorted_wrt (\<lambda>a b. f b \<le> f a) (js_sort (\<lambda>a b. f b - f a) xs)"
proof -
  have "sorted (map (\<lambda>z. - f z) (sort_key (\<lambda>z. - f z) xs))"
    by (rule sorted_sort_key)
  then show ?thesis
    by (simp add: js_sort_desc sorted_map)
qed

lemma js_sort_desc_stable:
  "filter (\<lambda>z. f z = t) (js_sort (\<lambda>a b. f b - f a) xs) = filter (\<lambda>z. f z = t) xs"
proof -
  have "filter (\<lambda>z. - f z = - t) (sort_key (\<lambda>z. - f z) xs) = filter (\<lambda>z. - f z = - t) xs"
    by (rule sort_key_stable)
  then show ?thesis
    by (simp add: js_sort_desc)
qed

subsection \<open>Top regions\<close>

text \<open>
  Claim C4.  For a year that has an entry, \<open>topRegions n\<close> returns the first \<open>n\<close>
  elements of a ranking of the year's region records that is a rearrangement of them, is
  in descending order of the region total, and keeps records of equal total in their
  input order; so its length is \<open>min n regionCount\<close>.  \<open>renderRegionalChart\<close> labels
  its bars with the first 5 regions of that ranking.
\<close>

theorem topRegions_stable_prefix:
  assumes "regional data y = Some rs"
  shows "\<exists>ranked.
           topRegions n data y = Inr (take n ranked)
         \<and> mset ranked = mset rs
         \<and> sorted_wrt (\<lambda>a b. regionTotal (sources data) b \<le> regionTotal (sources data) a) ranked
         \<and> (\<forall>t. filter (\<lambda>r. regionTotal (sources data) r = t) ranked
                = filter (\<lambda>r. regionTotal (sources data) r = t) rs)
         \<and> length (take n ranked) = min n (length rs)
         \<and> (\<exists>series. renderRegionalChart data y = Inr (map region (take 5 ranked), series))"
proof (intro exI conjI)
  show top: "topRegions n data y = Inr (take n (sortedRegions data rs))" for n
    using assms by (simp add: topRegions_def onRegions_def)
  show "mset (sortedRegions data rs) = mset rs"
    unfolding sortedRegions_def by (rule js_sort_desc_mset)
  show "sorted_wrt (\<lambda>a b. regionTotal (sources data) b \<le> regionTotal (sources data) a)
          (sortedRegions data rs)"
    unfolding sortedRegions_def by (rule js_sort_desc_sorted)
  show "\<forall>t. filter (\<lambda>r. regionTotal (sources data) r = t) (sortedRegions data rs)
           = filter (\<lambda>r. regionTotal (sources data) r = t) rs"
    unfolding sortedRegions_def by (simp add: js_sort_desc_stable)
  show "length (take n (sortedRegions data rs)) = min n (length rs)"
    unfolding sortedRegions_def by (simp add: js_sort_desc_length min.commute)
  show "renderRegionalChart data y
          = Inr (map region (take 5 (sortedRegions data rs)),
                 map (\<lambda>s. (s, map (\<lambda>r. gen r s) (take 5 (sortedRegions data rs)))) (sources data))"
    by (simp add: renderRegionalChart_def top)
qed

theorem topRegions_stable_prefix_witness:
  "regional exData ''2023'' = Some [exA, exB]
   \<and> (\<exists>ranked.
           topRegions 5 exData ''2023'' = Inr (take 5 ranked)
         \<and> mset ranked = mset [exA, exB]
         \<and> sorted_wrt (\<lambda>a b. regionTotal (sources exData) b \<le> regionTotal (sources exData) a) ranked
         \<and> (\<forall>t. filter (\<lambda>r. regionTotal (sources exData) r = t) ranked
                = filter (\<lambda>r. regionTotal (sources exData) r = t) [exA, exB])
         \<and> length (take 5 ranked) = min 5 (length [exA, exB])
         \<and> (\<exists>series. renderRegionalChart exData ''2023'' = Inr (map region (take 5 ranked), series)))"
proof
  show h: "regional exData ''2023'' = Some [exA, exB]"
    by (simp add: exData_def)
  show "\<exists>ranked.
           topRegions 5 exData ''2023'' = Inr (take 5 ranked)
         \<and> mset ranked = mset [exA, exB]
         \<and> sorted_wrt (\<lambda>a b. regionTotal (sources exData) b \<le> regionTotal (sources exData) a) ranked
         \<and> (\<forall>t. filter (\<lambda>r. regionTotal (sources exData) r = t) ranked
                = filter (\<lambda>r. regionTotal (sources exData) r = t) [exA, exB])
         \<and> length (take 5 ranked) = min 5 (length [exA, exB])
         \<and> (\<exists>series. renderRegionalChart exData ''2023'' = Inr (map region (take 5 ranked), series))"
    by (rule topRegions_stable_prefix [OF h])
qed

subsection \<open>Selecting a year that the dataset does not have\<close>

text \<open>
  Claim C1 says that selecting a year outside the dataset fails with InvalidSelection and
  leaves \<open>currentYear\<close> as it was.  \<open>filterByYear\<close> has no membership test: its first
  statement stores the year, and the failure comes later, as the TypeError of calling
  \<open>reduce\<close> on \<open>undefined\<close>.  On the two-region dataset with 2023 selected, selecting
  1999 fails and leaves 1999 selected.
\<close>

theorem filterByYear_unknown_year_counterexample:
  "regional exData ''1999'' = None
   \<and> globalData exState = Some exData
   \<and> fst (filterByYear ''1999'' exState) = Some TypeError
   \<and> currentYear exState = ''2023''
   \<and> currentYear (snd (filterByYear ''1999'' exState)) = ''1999''
   \<and> snd (filterByYear ''1999'' exState) \<noteq> exState"
  by (simp add: filterByYear_def exState_def exData_def totalForYear_def onRegions_def Let_def)

text \<open>
  Claim C1, amended.  For a loaded dataset and a year without an entry in
  \<open>data.regional\<close>, \<open>filterByYear\<close> raises a TypeError after it has stored the year
  in \<open>currentYear\<close> and written the year and its feature text to the statistics; the
  dataset, the total, the charts and the detail view stay as they were.
\<close>

theorem filterByYear_unknown_year:
  assumes "globalData st = Some data" and "regional data y = None"
  shows "filterByYear y st
           = (Some TypeError, st\<lparr> currentYear := y, statYear := y, statFeature := characteristics y \<rparr>)"
  using assms by (simp add: filterByYear_def totalForYear_def onRegions_def Let_def)

theorem filterByYear_unknown_year_witness:
  "globalData exState = Some exData \<and> regional exData ''1999'' = None
   \<and> filterByYear ''1999'' exState
       = (Some TypeError,
          exState\<lparr> currentYear := ''1999'', statYear := ''1999'', statFeature := Analysing \<rparr>)"
proof -
  have g: "globalData exState = Some exData" by (simp add: exState_def)
  have r: "regional exData ''1999'' = None" by (simp add: exData_def)
  have c: "characteristics ''1999'' = Analysing" by (simp add: characteristics_def)
  show ?thesis
    using filterByYear_unknown_year [OF g r] g r c by simp
qed

subsection \<open>Unknown years and sources in the aggregations\<close>

text \<open>
  Claim C3 says that every aggregation fails with InvalidYear or InvalidSource on a year
  or source the dataset does not have, and never defaults such a key.  The ranking reads
  \<open>r[source] || 0\<close> for whatever source it is given: for the source coal, which the
  two-region dataset does not list, it returns every region with the value 0.
\<close>

theorem rankBySource_unknown_source_counterexample:
  "''coal'' \<notin> set (sources exData)
   \<and> rankBySource exData ''2023'' ''coal'' = Inr [(''A'', 0), (''B'', 0)]"
  by (simp add: rankBySource_def onRegions_def rankingOf_def exData_def exA_def exB_def orZero_def)

lemma js_sort_const:
  "\<forall>x\<in>set xs. f x = c \<Longrightarrow> js_sort (\<lambda>a b. f b - f a) xs = xs"
proof (induction xs)
  case Nil
  then show ?case by simp
next
  case (Cons x xs)
  then have "js_sort (\<lambda>a b. f b - f a) xs = xs" by simp
  moreover have "sort_insert (\<lambda>a b. f b - f a) x xs = x # xs"
    using Cons.prems by (cases xs) simp_all
  ultimately show ?case by simp
qed

text \<open>
  Claim C3, amended.  For a year without an entry in \<open>data.regional\<close>, the year total,
  the top regions, the region shares, the ranking and the heatmap raise a TypeError, and
  so do the source-mix totals unless the source list is empty (then they are the empty
  list).  For a year with an entry and a source that no region record of the year has a
  value for, the ranking does not fail: it lists the regions in input order, each with
  the value 0.
\<close>

theorem unknown_year_or_source:
  "(regional data y = None \<longrightarrow>
        totalForYear data y = Inl TypeError
      \<and> topRegions n data y = Inl TypeError
      \<and> regionShareTotals data y = Inl TypeError
      \<and> rankBySource data y src = Inl TypeError
      \<and> showHeatmap data y = Inl TypeError
      \<and> sourceMixTotals data y = (if sources data = [] then Inr [] else Inl TypeError))
   \<and> (\<forall>rs. regional data y = Some rs \<and> (\<forall>r\<in>set rs. gen r src = None) \<longrightarrow>
        rankBySource data y src = Inr (map (\<lambda>r. (region r, 0)) rs))"
proof (intro conjI impI allI)
  fix rs
  assume h: "regional data y = Some rs \<and> (\<forall>r\<in>set rs. gen r src = None)"
  then have m: "map (\<lambda>r. (region r, orZero (gen r src))) rs = map (\<lambda>r. (region r, 0)) rs"
    by (simp add: orZero_def)
  have "js_sort (\<lambda>a b. snd b - snd a) (map (\<lambda>r. (region r, 0::rat)) rs) = map (\<lambda>r. (region r, 0)) rs"
    by (rule js_sort_const [where c = 0]) auto
  then show "rankBySource data y src = Inr (map (\<lambda>r. (region r, 0)) rs)"
    using h by (simp add: rankBySource_def onRegions_def rankingOf_def m)
qed (simp_all add: totalForYear_def topRegions_def regionShareTotals_def rankBySource_def
       showHeatmap_def sourceMixTotals_def onRegions_def)

theorem unknown_year_or_source_witness:
  "regional exData ''1999'' = None
   \<and> totalForYear exData ''1999'' = Inl TypeError
   \<and> topRegions 5 exData ''1999'' = Inl TypeError
   \<and> regionShareTotals exData ''1999'' = Inl TypeError
   \<and> rankBySource exData ''1999'' ''solar'' = Inl TypeError
   \<and> showHeatmap exData ''1999'' = Inl TypeError
   \<and> sourceMixTotals exData ''1999'' = Inl TypeError
   \<and> regional exData ''2023'' = Some [exA, exB]
   \<and> gen exA ''coal'' = None
   \<and> gen exB ''coal'' = None
   \<and> rankBySource exData ''2023'' ''coal'' = Inr [(''A'', 0), (''B'', 0)]"
proof -
  have a: "regional exData ''1999'' = None" by (simp add: exData_def)
  have b: "regional exData ''2023'' = Some [exA, exB]" by (simp add: exData_def)
  have c: "\<forall>r\<in>set [exA, exB]. gen r ''coal'' = None" by (simp add: exA_def exB_def)
  have d: "sources exData \<noteq> []" by (simp add: exData_def)
  have e: "map (\<lambda>r. (region r, 0::rat)) [exA, exB] = [(''A'', 0), (''B'', 0)]"
    by (simp add: exA_def exB_def)
  show ?thesis
    using unknown_year_or_source [of exData "''1999''" 5 "''solar''"]
      unknown_year_or_source [of exData "''2023''" 5 "''coal''"] a b c d e
    by simp
qed

subsection \<open>Results that do not overflow\<close>

lemma overflowAt_large: "(2::rat) ^ 64 \<le> overflowAt"
  by (simp add: overflowAt_def)


lemma js_fin_Num: "- overflowAt < x \<Longrightarrow> x < overflowAt \<Longrightarrow> js_fin x = Num x"
  by (simp add: js_fin_def)

lemma js_fin_small: "\<bar>x\<bar> < 2 ^ 64 \<Longrightarrow> js_fin x = Num x"
  using overflowAt_large by (intro js_fin_Num) (simp_all add: abs_less_iff)



lemma floor_numeral_div_rat:
  "\<lfloor>(numeral a :: rat) / numeral b\<rfloor> = numeral a div numeral b"
  by (metis floor_divide_of_int_eq of_int_numeral)

subsection \<open>The two-region example\<close>

text \<open>
  Claim C9.  On the two-region dataset for 2023: both region totals are 100 and the share
  ranking lists A before B; the source-mix totals are 150 for solar and 50 for wind, in
  the order of the source list; with every series visible the percentages are
  \<open>75.0\<close> for solar and \<open>25.0\<close> for wind.
\<close>

theorem two_region_example:
  "regional exData ''2023'' = Some [exA, exB]
   \<and> regionTotal (sources exData) exA = 100
   \<and> regionTotal (sources exData) exB = 100
   \<and> regionShareTotals exData ''2023'' = Inr [(''A'', 100), (''B'', 100)]
   \<and> renderRegionalShareChart exData ''2023'' = Inr ([''A'', ''B''], [100, 100])
   \<and> sourceMixTotals exData ''2023'' = Inr [150, 50]
   \<and> renderMixChart exData ''2023'' = Inr ([''solar'', ''wind''], [150, 50])
   \<and> percentage 150 [150, 50] (\<lambda>i. True) = ''75.0''
   \<and> percentage 50 [150, 50] (\<lambda>i. True) = ''25.0''
   \<and> visibleSharePercent [150, 50] (\<lambda>i. True) 0 = Num 75
   \<and> visibleSharePercent [150, 50] (\<lambda>i. True) 1 = Num 25"
proof (intro conjI)
  have q1: "shareQuotient 150 [150, 50] (\<lambda>i. True) = Num 75"
    by (simp add: shareQuotient_def visibleSum_def js_add_def js_fin_small js_div_def)
  have q2: "shareQuotient 50 [150, 50] (\<lambda>i. True) = Num 25"
    by (simp add: shareQuotient_def visibleSum_def js_add_def js_fin_small js_div_def)
  have t1: "tenths 75 = 750"
    by (simp add: tenths_def floor_numeral_div_rat)
  have t2: "tenths 25 = 250"
    by (simp add: tenths_def floor_numeral_div_rat)
  show "regional exData ''2023'' = Some [exA, exB]" by (simp add: exData_def)
  show "regionTotal (sources exData) exA = 100" by code_simp
  show "regionTotal (sources exData) exB = 100" by code_simp
  show "regionShareTotals exData ''2023'' = Inr [(''A'', 100), (''B'', 100)]" by code_simp
  show "renderRegionalShareChart exData ''2023'' = Inr ([''A'', ''B''], [100, 100])" by code_simp
  show "sourceMixTotals exData ''2023'' = Inr [150, 50]" by code_simp
  show "renderMixChart exData ''2023'' = Inr ([''solar'', ''wind''], [150, 50])" by code_simp
  show "percentage 150 [150, 50] (\<lambda>i. True) = ''75.0''"
    by (simp add: percentage_def q1 toFixed1_def t1 decimal.simps digit_def)
  show "percentage 50 [150, 50] (\<lambda>i. True) = ''25.0''"
    by (simp add: percentage_def q2 toFixed1_def t2 decimal.simps digit_def)
  show "visibleSharePercent [150, 50] (\<lambda>i. True) 0 = Num 75"
    by (simp add: visibleSharePercent_def q1 fixedValue_def t1)
  show "visibleSharePercent [150, 50] (\<lambda>i. True) 1 = Num 25"
    by (simp add: visibleSharePercent_def q2 fixedValue_def t2)
qed

subsection \<open>The maximum of the heatmap grid\<close>

text \<open>
  The two nested loops keep the largest value seen so far, so the result is at least the
  starting value, at least every cell, and the starting value itself when no cell exceeds
  it.
\<close>

lemma row_max_ge_init:
  "m \<le> foldl (\<lambda>m s. if m < k s then k s else m) (m::rat) xs"
proof (induction xs arbitrary: m)
  case Nil
  show ?case by simp
next
  case (Cons x xs)
  have "m \<le> (if m < k x then k x else m)" by simp
  also have "\<dots> \<le> foldl (\<lambda>m s. if m < k s then k s else m) (if m < k x then k x else m) xs"
    by (rule Cons.IH)
  finally show ?case by simp
qed

lemma row_max_ge_elem:
  "x \<in> set xs \<Longrightarrow> k x \<le> foldl (\<lambda>m s. if m < k s then k s else m) (m::rat) xs"
proof (induction xs arbitrary: m)
  case Nil
  then show ?case by simp
next
  case (Cons a xs)
  show ?case
  proof (cases "x = a")
    case True
    have "k a \<le> (if m < k a then k a else m)" by simp
    also have "\<dots> \<le> foldl (\<lambda>m s. if m < k s then k s else m) (if m < k a then k a else m) xs"
      by (rule row_max_ge_init)
    finally show ?thesis using True by simp
  next
    case False
    with Cons.prems have "x \<in> set xs" by simp
    then show ?thesis using Cons.IH by simp
  qed
qed

lemma row_max_same:
  "\<forall>x\<in>set xs. k x \<le> m \<Longrightarrow> foldl (\<lambda>m s. if m < k s then k s else m) (m::rat) xs = m"
  by (induction xs arbitrary: m) simp_all

lemma grid_max_ge_init:
  "m \<le> foldl (\<lambda>maxVal r. foldl (\<lambda>m s. if m < k r s then k r s else m) maxVal srcs) (m::rat) rs"
proof (induction rs arbitrary: m)
  case Nil
  show ?case by simp
next
  case (Cons r rs)
  have "m \<le> foldl (\<lambda>m s. if m < k r s then k r s else m) m srcs"
    by (rule row_max_ge_init)
  also have "\<dots> \<le> foldl (\<lambda>maxVal r. foldl (\<lambda>m s. if m < k r s then k r s else m) maxVal srcs)
                     (foldl (\<lambda>m s. if m < k r s then k r s else m) m srcs) rs"
    by (rule Cons.IH)
  finally show ?case by simp
qed

lemma grid_max_ge_elem:
  "r \<in> set rs \<Longrightarrow> s \<in> set srcs \<Longrightarrow>
   k r s \<le> foldl (\<lambda>maxVal r. foldl (\<lambda>m s. if m < k r s then k r s else m) maxVal srcs) (m::rat) rs"
proof (induction rs arbitrary: m)
  case Nil
  then show ?case by simp
next
  case (Cons a rs)
  show ?case
  proof (cases "r = a")
    case True
    have "k a s \<le> foldl (\<lambda>m s. if m < k a s then k a s else m) m srcs"
      using Cons.prems(2) by (rule row_max_ge_elem)
    also have "\<dots> \<le> foldl (\<lambda>maxVal r. foldl (\<lambda>m s. if m < k r s then k r s else m) maxVal srcs)
                     (foldl (\<lambda>m s. if m < k a s then k a s else m) m srcs) rs"
      by (rule grid_max_ge_init)
    finally show ?thesis using True by simp
  next
    case False
    with Cons.prems have "r \<in> set rs" by simp
    then show ?thesis using Cons.IH Cons.prems(2) by simp
  qed
qed

lemma grid_max_same:
  "\<forall>r\<in>set rs. \<forall>s\<in>set srcs. k r s \<le> m \<Longrightarrow>
   foldl (\<lambda>maxVal r. foldl (\<lambda>m s. if m < k r s then k r s else m) maxVal srcs) (m::rat) rs = m"
  by (induction rs arbitrary: m) (simp_all add: row_max_same)

lemma heatmapMax_ge:
  "r \<in> set rs \<Longrightarrow> s \<in> set (sources data) \<Longrightarrow> orZero (gen r s) \<le> heatmapMax data rs"
  unfolding heatmapMax_def by (rule grid_max_ge_elem [where k = "\<lambda>r s. orZero (gen r s)"])

lemma heatmapMax_nonneg: "0 \<le> heatmapMax data rs"
  unfolding heatmapMax_def by (rule grid_max_ge_init [where k = "\<lambda>r s. orZero (gen r s)"])

lemma heatmapMax_zero:
  "\<forall>r\<in>set rs. \<forall>s\<in>set (sources data). orZero (gen r s) \<le> 0 \<Longrightarrow> heatmapMax data rs = 0"
  unfolding heatmapMax_def by (rule grid_max_same [where k = "\<lambda>r s. orZero (gen r s)"])

subsection \<open>A year without generation\<close>

text \<open>
  Claim C10.  For a year whose region records hold, for every source of the dataset,
  either nothing or 0, the grid maximum stays 0 and every cell is the dash with no
  intensity and no colour: the branch that divides by the maximum is not taken for any
  cell.
\<close>

theorem showHeatmap_all_zero:
  assumes "regional data y = Some rs"
    and "\<forall>r\<in>set rs. \<forall>s\<in>set (sources data). gen r s = None \<or> gen r s = Some 0"
  shows "heatmapMax data rs = 0
       \<and> showHeatmap data y
           = Inr (sources data,
                  map (\<lambda>r. (region r,
                             map (\<lambda>s. \<lparr> cellText = Dash, cellIntensity = None, cellColor = None \<rparr>)
                               (sources data))) rs)"
proof -
  have z: "orZero (gen r s) = 0" if "r \<in> set rs" "s \<in> set (sources data)" for r s
  proof -
    from assms(2) that have "gen r s = None \<or> gen r s = Some 0" by blast
    then show ?thesis by (auto simp: orZero_def)
  qed
  then have m: "heatmapMax data rs = 0"
    by (intro heatmapMax_zero) simp
  have "heatCell 0 r s = \<lparr> cellText = Dash, cellIntensity = None, cellColor = None \<rparr>"
    if "r \<in> set rs" "s \<in> set (sources data)" for r s
    using z [OF that] by (simp add: heatCell_def)
  then have "map (\<lambda>r. (region r, map (heatCell 0 r) (sources data))) rs
           = map (\<lambda>r. (region r,
                             map (\<lambda>s. \<lparr> cellText = Dash, cellIntensity = None, cellColor = None \<rparr>)
                               (sources data))) rs"
    by (intro map_cong) simp_all
  then show ?thesis
    using assms(1) m by (simp add: showHeatmap_def onRegions_def heatmapOf_def)
qed


theorem showHeatmap_all_zero_witness:
  "regional exIdle ''2020''
     = Some [\<lparr> region = ''A'', gen = [''solar'' \<mapsto> 0] \<rparr>, \<lparr> region = ''B'', gen = Map.empty \<rparr>]
   \<and> showHeatmap exIdle ''2020''
       = Inr ([''solar'', ''wind''],
              [(''A'', [\<lparr> cellText = Dash, cellIntensity = None, cellColor = None \<rparr>,
                        \<lparr> cellText = Dash, cellIntensity = None, cellColor = None \<rparr>]),
               (''B'', [\<lparr> cellText = Dash, cellIntensity = None, cellColor = None \<rparr>,
                        \<lparr> cellText = Dash, cellIntensity = None, cellColor = None \<rparr>])])"
proof -
  have a: "regional exIdle ''2020''
     = Some [\<lparr> region = ''A'', gen = [''solar'' \<mapsto> 0] \<rparr>, \<lparr> region = ''B'', gen = Map.empty \<rparr>]"
    by (simp add: exIdle_def)
  have b: "\<forall>r\<in>set [\<lparr> region = ''A'', gen = [''solar'' \<mapsto> 0::rat] \<rparr>, \<lparr> region = ''B'', gen = Map.empty \<rparr>].
             \<forall>s\<in>set (sources exIdle). gen r s = None \<or> gen r s = Some 0"
    by (simp add: exIdle_def)
  have c: "sources exIdle = [''solar'', ''wind'']"
    by (simp add: exIdle_def)
  show ?thesis
    using showHeatmap_all_zero [OF a b] a c by simp
qed

subsection \<open>Intensity of a heatmap cell\<close>

text \<open>
  The maximum is the starting value 0 or the value of one of the cells; and for a value
  between 0 and a positive maximum none of the three operations overflows.
\<close>

lemma row_max_attained:
  "foldl (\<lambda>m s. if m < k s then k s else m) (m::rat) xs = m
   \<or> (\<exists>x\<in>set xs. foldl (\<lambda>m s. if m < k s then k s else m) m xs = k x)"
proof (induction xs arbitrary: m)
  case Nil
  show ?case by simp
next
  case (Cons a xs)
  from Cons.IH [of "if m < k a then k a else m"] show ?case
    by (auto split: if_splits)
qed

lemma grid_max_attained:
  "foldl (\<lambda>maxVal r. foldl (\<lambda>m s. if m < k r s then k r s else m) maxVal srcs) (m::rat) rs = m
   \<or> (\<exists>r\<in>set rs. \<exists>s\<in>set srcs.
         foldl (\<lambda>maxVal r. foldl (\<lambda>m s. if m < k r s then k r s else m) maxVal srcs) m rs = k r s)"
proof (induction rs arbitrary: m)
  case Nil
  show ?case by simp
next
  case (Cons a rs)
  define m' where "m' = foldl (\<lambda>m s. if m < k a s then k a s else m) m srcs"
  have row: "m' = m \<or> (\<exists>s\<in>set srcs. m' = k a s)"
    unfolding m'_def by (rule row_max_attained)
  have step: "foldl (\<lambda>maxVal r. foldl (\<lambda>m s. if m < k r s then k r s else m) maxVal srcs) m (a # rs)
            = foldl (\<lambda>maxVal r. foldl (\<lambda>m s. if m < k r s then k r s else m) maxVal srcs) m' rs"
    by (simp add: m'_def)
  from Cons.IH [of m'] row show ?case
    unfolding step by auto
qed

lemma heatmapMax_attained:
  assumes "0 < heatmapMax data rs"
  shows "\<exists>r\<in>set rs. \<exists>s\<in>set (sources data). orZero (gen r s) = heatmapMax data rs"
proof -
  have "heatmapMax data rs = 0
      \<or> (\<exists>r\<in>set rs. \<exists>s\<in>set (sources data). heatmapMax data rs = orZero (gen r s))"
    unfolding heatmapMax_def
    by (rule grid_max_attained [where k = "\<lambda>r s. orZero (gen r s)"])
  with assms obtain r s where "r \<in> set rs" "s \<in> set (sources data)"
    "heatmapMax data rs = orZero (gen r s)"
    by auto
  then show ?thesis by force
qed

lemma heatmapIntensity_in_range:
  assumes "0 < maxVal" and "0 \<le> v" and "v \<le> maxVal"
  shows "heatmapIntensity v maxVal = Num (1 / 10 + v / maxVal * (9 / 10))"
proof -
  define q where "q = v / maxVal"
  have q: "0 \<le> q" "q \<le> 1"
    using assms by (simp_all add: q_def)
  have big: "(2::rat) \<le> 2 ^ 64" by simp
  have a: "js_fin q = Num q"
    using q big by (intro js_fin_small) (simp only: abs_less_iff, linarith)
  have b: "js_fin (q * (9 / 10)) = Num (q * (9 / 10))"
    using q big by (intro js_fin_small) (simp only: abs_less_iff, linarith)
  have c: "js_fin (1 / 10 + q * (9 / 10)) = Num (1 / 10 + q * (9 / 10))"
    using q big by (intro js_fin_small) (simp only: abs_less_iff, linarith)
  have "heatmapIntensity v maxVal = js_plus (1 / 10) (js_times (js_fin q) (9 / 10))"
    using assms(1) by (simp add: heatmapIntensity_def js_div_def q_def)
  also have "\<dots> = Num (1 / 10 + q * (9 / 10))"
    by (simp only: a js_times_def jsnum.case b js_plus_def c)
  finally show ?thesis
    by (simp only: q_def)
qed


text \<open>
  Claim C6.  The intensity is computed for the cells of the heatmap of a year, with the
  maximum of that grid.  For every cell: its value is at most the maximum; its intensity,
  read as a number, is what the specification's formula gives, that is 0 (no colour is
  set) when the value is not positive, and otherwise \<open>0.1 + (value / maxVal) * 0.9\<close>,
  which needs no clamp because it lies above 0.1 and at most at 1.  A positive cell that
  holds the maximum has intensity 1, and when the maximum is positive some cell holds it.
  Between two cells of the grid, the one with the larger value never has the smaller
  intensity.
\<close>

theorem heatmap_intensity_in_grid:
  assumes "regional data y = Some rs" and "r \<in> set rs" and "s \<in> set (sources data)"
  shows "showHeatmap data y
           = Inr (sources data,
                  map (\<lambda>r. (region r, map (heatCell (heatmapMax data rs) r) (sources data))) rs)
       \<and> orZero (gen r s) \<le> heatmapMax data rs
       \<and> intensityValue (heatCell (heatmapMax data rs) r s)
           = Num (heatmapIntensitySpec (orZero (gen r s)) (heatmapMax data rs) (1 / 10) 1)
       \<and> (orZero (gen r s) \<le> 0 \<longrightarrow>
             cellIntensity (heatCell (heatmapMax data rs) r s) = None
           \<and> intensityValue (heatCell (heatmapMax data rs) r s) = Num 0)
       \<and> (0 < orZero (gen r s) \<longrightarrow>
             0 < heatmapMax data rs
           \<and> cellIntensity (heatCell (heatmapMax data rs) r s)
               = Some (Num (1 / 10 + orZero (gen r s) / heatmapMax data rs * (9 / 10))))
       \<and> (0 < orZero (gen r s) \<and> orZero (gen r s) = heatmapMax data rs \<longrightarrow>
             intensityValue (heatCell (heatmapMax data rs) r s) = Num 1)
       \<and> (0 < heatmapMax data rs \<longrightarrow>
             (\<exists>r'\<in>set rs. \<exists>s'\<in>set (sources data).
                 orZero (gen r' s') = heatmapMax data rs
               \<and> intensityValue (heatCell (heatmapMax data rs) r' s') = Num 1))
       \<and> (\<forall>r'\<in>set rs. \<forall>s'\<in>set (sources data).
             orZero (gen r s) \<le> orZero (gen r' s') \<longrightarrow>
             (\<exists>a b. intensityValue (heatCell (heatmapMax data rs) r s) = Num a
                  \<and> intensityValue (heatCell (heatmapMax data rs) r' s') = Num b
                  \<and> a \<le> b))"
proof -
  define m where "m = heatmapMax data rs"
  define f where "f v = 1 / 10 + v / m * (9 / 10)" for v
  define val where "val r s = orZero (gen r s)" for r :: region_record and s
  have le: "val r s \<le> m" if "r \<in> set rs" "s \<in> set (sources data)" for r s
    unfolding val_def m_def using that by (rule heatmapMax_ge)
  have pos: "0 < m" if "r \<in> set rs" "s \<in> set (sources data)" "0 < val r s" for r s
    using le [OF that(1,2)] that(3) by simp
  have code: "heatmapIntensity (val r s) m = Num (f (val r s))"
    if "r \<in> set rs" "s \<in> set (sources data)" "0 < val r s" for r s
    unfolding f_def using pos [OF that] that(3) le [OF that(1,2)]
    by (intro heatmapIntensity_in_range) simp_all
  have range: "1 / 10 < f (val r s) \<and> f (val r s) \<le> 1"
    if "r \<in> set rs" "s \<in> set (sources data)" "0 < val r s" for r s
  proof -
    have "0 < val r s / m \<and> val r s / m \<le> 1"
      using pos [OF that] that(3) le [OF that(1,2)] by simp
    then show ?thesis by (simp add: f_def)
  qed
  have spec_pos: "heatmapIntensitySpec (val r s) m (1 / 10) 1 = f (val r s)"
    if "r \<in> set rs" "s \<in> set (sources data)" "0 < val r s" for r s
    using range [OF that] that(3) by (simp add: heatmapIntensitySpec_def f_def)
  have spec_zero: "heatmapIntensitySpec v m (1 / 10) 1 = 0" if "v \<le> 0" for v
    using that by (simp add: heatmapIntensitySpec_def)
  have none: "cellIntensity (heatCell m r s) = None" if "val r s \<le> 0" for r s
    using that by (simp add: heatCell_def val_def Let_def)
  have some: "cellIntensity (heatCell m r s) = Some (Num (f (val r s)))"
    if "r \<in> set rs" "s \<in> set (sources data)" "0 < val r s" for r s
    using that(3) code [OF that] by (simp add: heatCell_def val_def Let_def)
  have reading: "intensityValue (heatCell m r s) = Num (heatmapIntensitySpec (val r s) m (1 / 10) 1)"
    if "r \<in> set rs" "s \<in> set (sources data)" for r s
  proof (cases "0 < val r s")
    case True
    then show ?thesis
      using some [OF that True] spec_pos [OF that True] by (simp add: intensityValue_def)
  next
    case False
    then have "val r s \<le> 0" by simp
    then show ?thesis
      using none spec_zero by (simp add: intensityValue_def)
  qed
  have top: "intensityValue (heatCell m r s) = Num 1"
    if "r \<in> set rs" "s \<in> set (sources data)" "0 < val r s" "val r s = m" for r s
    using some [OF that(1,2,3)] that(3,4) by (simp add: intensityValue_def f_def)
  have reached: "\<exists>r'\<in>set rs. \<exists>s'\<in>set (sources data).
                    val r' s' = m \<and> intensityValue (heatCell m r' s') = Num 1"
    if "0 < m"
  proof -
    from that obtain r' s' where c: "r' \<in> set rs" "s' \<in> set (sources data)" "val r' s' = m"
      using heatmapMax_attained [of data rs] unfolding m_def val_def by blast
    then have "intensityValue (heatCell m r' s') = Num 1"
      using top [OF c(1,2)] that by simp
    with c show ?thesis by blast
  qed
  have spec_mono: "heatmapIntensitySpec (val r s) m (1 / 10) 1
                 \<le> heatmapIntensitySpec (val r' s') m (1 / 10) 1"
    if a: "r \<in> set rs" "s \<in> set (sources data)" and b: "r' \<in> set rs" "s' \<in> set (sources data)"
      and l: "val r s \<le> val r' s'" for r s r' s'
  proof (cases "0 < val r s")
    case True
    then have p': "0 < val r' s'" using l by simp
    have "val r s / m \<le> val r' s' / m"
      using l pos [OF a True] by (simp add: divide_right_mono)
    then have "f (val r s) \<le> f (val r' s')" by (simp add: f_def)
    then show ?thesis
      using spec_pos [OF a True] spec_pos [OF b p'] by simp
  next
    case False
    then have z: "heatmapIntensitySpec (val r s) m (1 / 10) 1 = 0"
      by (intro spec_zero) simp
    have "0 \<le> heatmapIntensitySpec (val r' s') m (1 / 10) 1"
    proof (cases "0 < val r' s'")
      case True
      then show ?thesis using spec_pos [OF b True] range [OF b True] by simp
    next
      case False
      then show ?thesis using spec_zero [of "val r' s'"] by simp
    qed
    with z show ?thesis by simp
  qed
  have mono: "\<exists>a b. intensityValue (heatCell m r s) = Num a
                  \<and> intensityValue (heatCell m r' s') = Num b \<and> a \<le> b"
    if "r' \<in> set rs" "s' \<in> set (sources data)" "val r s \<le> val r' s'" for r' s'
    using reading [OF assms(2,3)] reading [OF that(1,2)] spec_mono [OF assms(2,3) that] by blast
  have tab: "showHeatmap data y
           = Inr (sources data, map (\<lambda>r. (region r, map (heatCell m r) (sources data))) rs)"
    using assms(1) by (simp add: showHeatmap_def onRegions_def heatmapOf_def m_def)
  have zero: "cellIntensity (heatCell m r s) = None \<and> intensityValue (heatCell m r s) = Num 0"
    if "val r s \<le> 0"
    using none [OF that] by (simp add: intensityValue_def)
  have positive: "0 < m \<and> cellIntensity (heatCell m r s) = Some (Num (1 / 10 + val r s / m * (9 / 10)))"
    if "0 < val r s"
    using pos [OF assms(2,3) that] some [OF assms(2,3) that] by (simp add: f_def)
  show ?thesis
    using tab le [OF assms(2,3)] reading [OF assms(2,3)] zero positive top [OF assms(2,3)] reached mono
    unfolding m_def val_def by blast
qed

theorem heatmap_intensity_in_grid_witness:
  "regional exData ''2023'' = Some [exA, exB] \<and> exA \<in> set [exA, exB]
   \<and> ''solar'' \<in> set (sources exData)
   \<and> orZero (gen exA ''solar'') = 100 \<and> heatmapMax exData [exA, exB] = 100
   \<and> cellIntensity (heatCell (heatmapMax exData [exA, exB]) exA ''solar'') = Some (Num 1)
   \<and> intensityValue (heatCell (heatmapMax exData [exA, exB]) exA ''solar'') = Num 1"
proof -
  have a: "regional exData ''2023'' = Some [exA, exB]" by (simp add: exData_def)
  have b: "exA \<in> set [exA, exB]" by simp
  have c: "''solar'' \<in> set (sources exData)" by (simp add: exData_def)
  have v: "orZero (gen exA ''solar'') = 100" by (simp add: exA_def orZero_def)
  have m: "heatmapMax exData [exA, exB] = 100"
    by (simp add: heatmapMax_def exData_def exA_def exB_def orZero_def)
  have "0 < orZero (gen exA ''solar'')" using v by simp
  then have "cellIntensity (heatCell (heatmapMax exData [exA, exB]) exA ''solar'')
               = Some (Num (1 / 10 + orZero (gen exA ''solar'') / heatmapMax exData [exA, exB] * (9 / 10)))"
    using heatmap_intensity_in_grid [OF a b c] by blast
  then have i: "cellIntensity (heatCell (heatmapMax exData [exA, exB]) exA ''solar'') = Some (Num 1)"
    by (simp add: v m)
  then have "intensityValue (heatCell (heatmapMax exData [exA, exB]) exA ''solar'') = Num 1"
    by (simp add: intensityValue_def)
  with a b c v m i show ?thesis by blast
qed

subsection \<open>A visible sum of zero\<close>

text \<open>
  Claim C2 says that the share is 0 for every index when the visible values add up to 0.
  The formatter has no such test; it divides by the sum whatever it is.  For two visible
  entries of value 0 the quotient is \<open>0 / 0\<close>, its \<open>toFixed(1)\<close> is the string
  \<open>NaN\<close>, and the share is not the number 0.
\<close>

theorem zero_visible_sum_counterexample:
  "visibleSum (\<lambda>i. True) [0, 0] = Num 0
   \<and> percentage 0 [0, 0] (\<lambda>i. True) = ''NaN''
   \<and> visibleSharePercent [0, 0] (\<lambda>i. True) 0 = NaN
   \<and> visibleSharePercent [0, 0] (\<lambda>i. True) 0 \<noteq> Num 0"
  by (simp add: visibleSum_def percentage_def visibleSharePercent_def shareQuotient_def
        js_add_def js_fin_small js_div_def toFixed1_def fixedValue_def)

lemma js_quot_zero:
  "js_quot (js_fin a) (Num 0) = (if a = 0 then NaN else if 0 < a then PInf else NInf)"
proof -
  have "0 < overflowAt" using overflowAt_large by (simp add: order_less_le_trans)
  then show ?thesis
    by (auto simp: js_fin_def js_div_def)
qed

text \<open>
  Claim C2, amended.  When the visible values add up to 0, the division is carried out:
  the quotient and its \<open>toFixed(1)\<close> string are NaN for the value 0, Infinity for a
  positive value and -Infinity for a negative one.  The label is empty except for a
  positive value, where it is \<open>Infinity%\<close>.
\<close>

theorem zero_visible_sum:
  assumes "visibleSum vis dataArr = Num 0"
  shows "shareQuotient v dataArr vis = (if v = 0 then NaN else if 0 < v then PInf else NInf)
       \<and> percentage v dataArr vis
           = (if v = 0 then ''NaN'' else if 0 < v then ''Infinity'' else ''-Infinity'')
       \<and> formatter v dataArr vis = (if 0 < v then ''Infinity%'' else [])
       \<and> visibleSharePercent dataArr vis i
           = (if dataArr ! i = 0 then NaN else if 0 < dataArr ! i then PInf else NInf)"
proof -
  have q: "shareQuotient w dataArr vis = (if w = 0 then NaN else if 0 < w then PInf else NInf)" for w
    using assms js_quot_zero [of "w * 100"] by (simp add: shareQuotient_def)
  show ?thesis
    by (simp add: percentage_def formatter_def visibleSharePercent_def q
        toFixed1_def fixedValue_def js_gt_def)
qed

theorem zero_visible_sum_witness:
  "visibleSum (\<lambda>i. i \<noteq> 0) [5, 0] = Num 0
   \<and> percentage 0 [5, 0] (\<lambda>i. i \<noteq> 0) = ''NaN''
   \<and> formatter 0 [5, 0] (\<lambda>i. i \<noteq> 0) = []
   \<and> percentage 5 [5, 0] (\<lambda>i. i \<noteq> 0) = ''Infinity''
   \<and> formatter 5 [5, 0] (\<lambda>i. i \<noteq> 0) = ''Infinity%''"
proof -
  have h: "visibleSum (\<lambda>i. i \<noteq> 0) [5, 0] = Num 0"
    by (simp add: visibleSum_def js_add_def js_fin_small)
  show ?thesis
    using zero_visible_sum [OF h, of 0 0] zero_visible_sum [OF h, of 5 0] h by simp
qed

subsection \<open>Hiding small percentage labels\<close>

lemma decimal_small: "n < 10 \<Longrightarrow> decimal n = [digit n]"
  by (simp add: decimal.simps)

text \<open>
  Claim C5.  The formatter, which is the same code in the mix chart and in the share
  chart, returns the \<open>toFixed(1)\<close> string followed by the percent sign exactly when
  the number that string stands for is greater than 3, and the empty string otherwise;
  for a finite share that is when the share is not negative and its rounded value has
  more than 30 tenths.  A share of exactly 3 gives the empty string, a share of 3.1 gives
  \<open>3.1%\<close>.  The formatter only returns a string: the chart data it reads are an
  argument and stay what they are.
\<close>

theorem label_suppression:
  "formatter v dataArr vis
     = (if js_gt (fixedValue (shareQuotient v dataArr vis)) 3
        then toFixed1 (shareQuotient v dataArr vis) @ ''%''
        else [])
   \<and> toFixed1 (shareQuotient v dataArr vis) @ ''%'' \<noteq> []
   \<and> (\<forall>a. shareQuotient v dataArr vis = Num a \<longrightarrow>
          (formatter v dataArr vis \<noteq> [] \<longleftrightarrow> 0 \<le> a \<and> 30 < tenths a))
   \<and> (shareQuotient v dataArr vis = Num 3 \<longrightarrow> formatter v dataArr vis = [])
   \<and> (shareQuotient v dataArr vis = Num (31 / 10) \<longrightarrow> formatter v dataArr vis = ''3.1%'')"
proof (intro conjI allI impI)
  show f: "formatter v dataArr vis
     = (if js_gt (fixedValue (shareQuotient v dataArr vis)) 3
        then toFixed1 (shareQuotient v dataArr vis) @ ''%''
        else [])"
    by (simp add: formatter_def percentage_def)
  show "toFixed1 (shareQuotient v dataArr vis) @ ''%'' \<noteq> []"
    by simp
  have t3: "tenths 3 = 30" by code_simp
  have t31: "tenths (31 / 10) = 31" by code_simp
  show "formatter v dataArr vis = []" if "shareQuotient v dataArr vis = Num 3"
    using that by (simp add: f fixedValue_def js_gt_def t3)
  show "formatter v dataArr vis = ''3.1%''" if "shareQuotient v dataArr vis = Num (31 / 10)"
    using that
    by (simp add: f fixedValue_def js_gt_def t31 toFixed1_def decimal_small digit_def)
  show "formatter v dataArr vis \<noteq> [] \<longleftrightarrow> 0 \<le> a \<and> 30 < tenths a"
    if "shareQuotient v dataArr vis = Num a" for a
  proof (cases "a < 0")
    case True
    have "- (rat_of_nat (tenths a) / 10) \<le> 0" by simp
    then have "\<not> 3 < - (rat_of_nat (tenths a) / 10)" by linarith
    then show ?thesis
      using that True by (simp add: f fixedValue_def js_gt_def)
  next
    case False
    have "3 < rat_of_nat (tenths a) / 10 \<longleftrightarrow> 30 < tenths a"
    proof -
      have "3 < rat_of_nat (tenths a) / 10 \<longleftrightarrow> rat_of_nat 30 < rat_of_nat (tenths a)"
        by simp
      then show ?thesis by (simp only: of_nat_less_iff)
    qed
    then show ?thesis
      using that False by (simp add: f fixedValue_def js_gt_def)
  qed
qed

theorem label_suppression_witness:
  "shareQuotient 3 [3, 97] (\<lambda>i. True) = Num 3
   \<and> formatter 3 [3, 97] (\<lambda>i. True) = []
   \<and> shareQuotient (31 / 10) [31 / 10, 969 / 10] (\<lambda>i. True) = Num (31 / 10)
   \<and> formatter (31 / 10) [31 / 10, 969 / 10] (\<lambda>i. True) = ''3.1%''"
proof -
  have a: "shareQuotient 3 [3, 97] (\<lambda>i. True) = Num 3"
    by (simp add: shareQuotient_def visibleSum_def js_add_def js_fin_small js_div_def)
  have b: "shareQuotient (31 / 10) [31 / 10, 969 / 10] (\<lambda>i. True) = Num (31 / 10)"
    by (simp add: shareQuotient_def visibleSum_def js_add_def js_fin_small js_div_def)
  have c: "formatter 3 [3, 97] (\<lambda>i. True) = []"
    using label_suppression [of 3 "[3, 97]" "\<lambda>i. True"] a by blast
  have d: "formatter (31 / 10) [31 / 10, 969 / 10] (\<lambda>i. True) = ''3.1%''"
    using label_suppression [of "31 / 10" "[31 / 10, 969 / 10]" "\<lambda>i. True"] b by blast
  show ?thesis
    using a b c d by blast
qed

subsection \<open>Shares of the visible entries\<close>








end
